theory Spec2Isabelle
  imports Main
begin

section \<open>Strings, paths and URLs\<close>

text \<open>
  The program is \<^verbatim>\<open>download_tickets.py\<close>: it reads an e-mail, extracts the hyperlinks
  that end in \<^verbatim>\<open>.csv\<close>, downloads each of them with retries, and merges the downloaded
  files into one CSV file with a single header.

  Python \<^verbatim>\<open>str\<close> and \<^verbatim>\<open>bytes\<close> values are HOL strings. The model covers texts of
  ASCII characters: on them \<^verbatim>\<open>str.lower\<close>, \<^verbatim>\<open>str.strip\<close> and decoding as UTF-8 are
  as defined below.
\<close>

definition lower_char :: "char \<Rightarrow> char" where
  "lower_char c =
     (case map_of (zip ''ABCDEFGHIJKLMNOPQRSTUVWXYZ'' ''abcdefghijklmnopqrstuvwxyz'') c of
        Some l \<Rightarrow> l
      | None \<Rightarrow> c)"

definition lower :: "string \<Rightarrow> string" where
  "lower s = map lower_char s"

definition endswith :: "string \<Rightarrow> string \<Rightarrow> bool" where
  "endswith s suf = (length suf \<le> length s \<and> drop (length s - length suf) s = suf)"

definition startswith :: "string \<Rightarrow> string \<Rightarrow> bool" where
  "startswith s p = (take (length p) s = p)"

text \<open>\<^verbatim>\<open>sub in s\<close> on strings: \<open>sub\<close> occurs in \<open>s\<close> as a substring.\<close>

fun contains :: "string \<Rightarrow> string \<Rightarrow> bool" where
  "contains sub [] = (sub = [])"
| "contains sub (c # s) = (startswith (c # s) sub \<or> contains sub s)"

text \<open>The ASCII characters for which \<^verbatim>\<open>str.isspace\<close> holds.\<close>

definition isspace :: "char \<Rightarrow> bool" where
  "isspace c =
     (c \<in> set [CHR 0x09, CHR 0x0A, CHR 0x0B, CHR 0x0C, CHR 0x0D,
                CHR 0x1C, CHR 0x1D, CHR 0x1E, CHR 0x1F, CHR 0x20])"

definition strip :: "string \<Rightarrow> string" where
  "strip s = rev (dropWhile isspace (rev (dropWhile isspace s)))"

definition digit_char :: "nat \<Rightarrow> char" where
  "digit_char n = ''0123456789'' ! n"

text \<open>The decimal numeral of a natural number, as an f-string prints it.\<close>

fun str_nat :: "nat \<Rightarrow> string" where
  "str_nat n =
     (if n < 10 then [digit_char n] else str_nat (n div 10) @ [digit_char (n mod 10)])"

declare str_nat.simps [simp del]

text \<open>\<^verbatim>\<open>os.path.basename\<close> and \<^verbatim>\<open>os.path.join\<close> (two arguments) on POSIX.\<close>

definition basename :: "string \<Rightarrow> string" where
  "basename p = rev (takeWhile (\<lambda>c. c \<noteq> CHR ''/'') (rev p))"

definition path_join :: "string \<Rightarrow> string \<Rightarrow> string" where
  "path_join a b =
     (if startswith b ''/'' then b
      else if a = [] \<or> endswith a ''/'' then a @ b
      else a @ ''/'' @ b)"

text \<open>
  The path component that \<^verbatim>\<open>urllib.parse.urlparse(url).path\<close> of the Python standard
  library returns, or the text of the \<^verbatim>\<open>ValueError\<close> it raises. Leading control
  characters and spaces are dropped, tab and newline characters removed, then a scheme, a
  network location after \<^verbatim>\<open>//\<close>, the fragment after \<^verbatim>\<open>#\<close>, the query after \<^verbatim>\<open>?\<close> and the
  parameters after \<^verbatim>\<open>;\<close> in the last segment are split off. A network location with
  only one of the two square brackets is rejected. One with both is handed to the
  library's check of a bracketed host, which differs between the versions of Python and
  is a parameter here: it gives the text of the exception, or nothing when the location
  is accepted.
\<close>

definition scheme_chars :: "char list" where
  "scheme_chars =
     ''abcdefghijklmnopqrstuvwxyzABCDEFGHIJKLMNOPQRSTUVWXYZ0123456789+-.''"

definition uses_params :: "string list" where
  "uses_params =
     ['''', ''ftp'', ''hdl'', ''prospero'', ''http'', ''imap'', ''https'', ''shttp'',
      ''rtsp'', ''rtspu'', ''sip'', ''sips'', ''mms'', ''sftp'', ''tel'']"

definition isalpha :: "char \<Rightarrow> bool" where
  "isalpha c = (c \<in> set ''abcdefghijklmnopqrstuvwxyzABCDEFGHIJKLMNOPQRSTUVWXYZ'')"

definition c0_control_or_space :: "char \<Rightarrow> bool" where
  "c0_control_or_space c = ((of_char c :: nat) \<le> 32)"

definition split_scheme :: "string \<Rightarrow> string \<times> string" where
  "split_scheme url =
     (let s = takeWhile (\<lambda>c. c \<noteq> CHR '':'') url in
      if CHR '':'' \<in> set url \<and> s \<noteq> [] \<and> isalpha (hd s) \<and> (\<forall>c \<in> set s. c \<in> set scheme_chars)
      then (lower s, drop (length s + 1) url)
      else ('''', url))"

definition splitparams :: "string \<Rightarrow> string" where
  "splitparams p =
     take (length p - length (basename p)) p @ takeWhile (\<lambda>c. c \<noteq> CHR '';'') (basename p)"

definition path_of :: "string \<Rightarrow> string \<Rightarrow> string" where
  "path_of scheme u =
     (let u4 = takeWhile (\<lambda>c. c \<noteq> CHR ''#'') u;
          u5 = takeWhile (\<lambda>c. c \<noteq> CHR ''?'') u4
      in if scheme \<in> set uses_params \<and> CHR '';'' \<in> set u5 then splitparams u5 else u5)"

definition urlparse_path :: "(string \<Rightarrow> string option) \<Rightarrow> string \<Rightarrow> string + string" where
  "urlparse_path check_bracketed url =
     (let u0 = dropWhile c0_control_or_space url;
          u1 = filter (\<lambda>c. c \<notin> set [CHR 0x09, CHR 0x0D, CHR 0x0A]) u0;
          (scheme, u2) = split_scheme u1
      in if take 2 u2 = ''//'' then
           (let netloc = takeWhile (\<lambda>c. c \<notin> set ''/?#'') (drop 2 u2);
                u3 = dropWhile (\<lambda>c. c \<notin> set ''/?#'') (drop 2 u2)
            in if (CHR ''['' \<in> set netloc) \<noteq> (CHR '']'' \<in> set netloc)
               then Inl ''Invalid IPv6 URL''
               else if CHR ''['' \<in> set netloc then
                 (case check_bracketed netloc of
                    Some e \<Rightarrow> Inl e
                  | None \<Rightarrow> Inr (path_of scheme u3))
               else Inr (path_of scheme u3))
         else Inr (path_of scheme u2))"

section \<open>The downloader object and the world it acts on\<close>

text \<open>The fields that \<^verbatim>\<open>TicketCSVDownloader.__init__\<close> sets.\<close>

record downloader =
  eml_path :: string
  output_name :: string
  base_output_dir :: string
  timestamp :: string
  output_folder :: string
  output_dir :: string
  raw_dir :: string
  logs_dir :: string
  retry_attempts :: nat
  retry_delay :: nat
  timeout :: nat
  user_agent :: string

text \<open>
  The constructor; \<open>ts\<close> is the text of \<^verbatim>\<open>datetime.now().strftime("%Y%m%d_%H%M%S")\<close>.
\<close>

definition init :: "string \<Rightarrow> string \<Rightarrow> string \<Rightarrow> string \<Rightarrow> downloader" where
  "init eml name base ts =
     (let folder = ''dtb.'' @ name @ ''_'' @ ts;
          out = path_join base folder
      in \<lparr> eml_path = eml, output_name = name, base_output_dir = base, timestamp = ts,
           output_folder = folder, output_dir = out,
           raw_dir = path_join out ''raw_downloads'', logs_dir = path_join out ''logs'',
           retry_attempts = 3, retry_delay = 2, timeout = 10,
           user_agent = ''TicketCSV-Downloader/1.0'' \<rparr>)"

type_synonym row = "string list"

text \<open>
  Everything the program changes: the files of the raw directory (name and bytes, in the
  order \<^verbatim>\<open>os.listdir\<close> enumerates them; writing an existing name replaces its bytes),
  the combined file (absent, or the rows written to it so far), the two log files, the
  console, and a trace of the passes through the \<^verbatim>\<open>try\<close> block of \<^verbatim>\<open>download_file\<close>
  (the URL of each) and of the calls of \<^verbatim>\<open>time.sleep\<close>. A write to a local file that
  has been opened is taken to complete.
\<close>

record world =
  raw_files :: "(string \<times> string) list"
  combined :: "row list option"
  downloads_log :: "string list"
  aggregation_log :: "string list"
  console :: "string list"
  attempts :: "string list"
  sleeps :: "nat list"

text \<open>
  A call returns a value, or an exception that nothing catches leaves it, with its text
  and the world as it is at that moment.
\<close>

datatype 'a result = Returns 'a | Raises string world

definition log_download :: "string \<Rightarrow> world \<Rightarrow> world" where
  "log_download line w = w\<lparr>downloads_log := downloads_log w @ [line]\<rparr>"

definition log_agg :: "string \<Rightarrow> world \<Rightarrow> world" where
  "log_agg line w = w\<lparr>aggregation_log := aggregation_log w @ [line]\<rparr>"

definition print :: "string \<Rightarrow> world \<Rightarrow> world" where
  "print line w = w\<lparr>console := console w @ [line]\<rparr>"

fun write_file :: "string \<Rightarrow> string \<Rightarrow> (string \<times> string) list \<Rightarrow> (string \<times> string) list" where
  "write_file name data [] = [(name, data)]"
| "write_file name data ((n, d) # fs) =
     (if n = name then (name, data) # fs else (n, d) # write_file name data fs)"

definition write_raw :: "string \<Rightarrow> string \<Rightarrow> world \<Rightarrow> world" where
  "write_raw name data w = w\<lparr>raw_files := write_file name data (raw_files w)\<rparr>"

definition writerow :: "row \<Rightarrow> world \<Rightarrow> world" where
  "writerow r w = w\<lparr>combined := map_option (\<lambda>rs. rs @ [r]) (combined w)\<rparr>"

section \<open>Link extractor\<close>

text \<open>
  The e-mail file as \<^verbatim>\<open>extract_csv_urls\<close> meets it: missing, raising an exception while
  it is opened or parsed (with the exception's text), or parsed into a message. A message
  is what the code asks of it: whether it is multipart, its parts in the order of
  \<^verbatim>\<open>walk()\<close>, each with its Content-Disposition header (empty when absent), content type
  and decoded payload, and the payload of the message itself.
\<close>

record part =
  content_disposition :: string
  content_type :: string
  payload :: "string option"

record message =
  is_multipart :: bool
  walk :: "part list"
  get_payload :: "string option"

datatype eml = Missing | Unreadable string | Parsed message

definition add_part :: "string \<Rightarrow> part \<Rightarrow> string" where
  "add_part body p =
     (if \<not> contains ''attachment'' (content_disposition p) then
        (if content_type p = ''text/html'' then
           (case payload p of
              Some bytes \<Rightarrow> if bytes \<noteq> [] then body @ bytes else body
            | None \<Rightarrow> body)
         else body)
      else body)"

definition html_body :: "message \<Rightarrow> string" where
  "html_body msg =
     (if is_multipart msg then foldl add_part [] (walk msg)
      else (case get_payload msg of
              Some bytes \<Rightarrow> if bytes \<noteq> [] then bytes else []
            | None \<Rightarrow> []))"

text \<open>
  \<^verbatim>\<open>re.findall(r'<a[^>]+href=["\']([^"\']+)["\'][^>]*>', body, re.IGNORECASE)\<close>.
  \<open>match_href\<close> matches the part of the pattern from \<^verbatim>\<open>href=\<close> on at the start of a
  text and returns the group and the text after the match: the group is the longest run
  of characters that are no quotes, and it has to be followed by a quote; the match ends
  at the next \<^verbatim>\<open>>\<close>. \<open>match_gap\<close> is the greedy \<^verbatim>\<open>[^>]+\<close> before it: it takes one
  character and prefers taking more to stopping. \<open>findall\<close> scans the text from left to
  right and goes on after each match.
\<close>

definition is_quote :: "char \<Rightarrow> bool" where
  "is_quote c = (c = CHR 0x22 \<or> c = CHR 0x27)"

definition match_href :: "string \<Rightarrow> (string \<times> string) option" where
  "match_href s =
     (if lower (take 5 s) = ''href='' then
        (case drop 5 s of
           [] \<Rightarrow> None
         | q # s1 \<Rightarrow>
             if is_quote q then
               (let g = takeWhile (\<lambda>c. \<not> is_quote c) s1 in
                if g = [] then None
                else (case dropWhile (\<lambda>c. \<not> is_quote c) s1 of
                        [] \<Rightarrow> None
                      | q' # s2 \<Rightarrow>
                          (case dropWhile (\<lambda>c. c \<noteq> CHR ''>'') s2 of
                             [] \<Rightarrow> None
                           | gt # s3 \<Rightarrow> Some (g, s3))))
             else None)
      else None)"

fun match_gap :: "string \<Rightarrow> (string \<times> string) option" where
  "match_gap [] = None"
| "match_gap (c # s) =
     (if c = CHR ''>'' then None
      else (case match_gap s of
              Some r \<Rightarrow> Some r
            | None \<Rightarrow> match_href s))"

definition match_anchor :: "string \<Rightarrow> (string \<times> string) option" where
  "match_anchor s =
     (if lower (take 2 s) = ''<a'' then match_gap (drop 2 s) else None)"

function findall :: "string \<Rightarrow> string list" where
  "findall [] = []"
| "findall (c # s) =
     (case match_anchor (c # s) of
        Some (g, rest) \<Rightarrow> g # findall rest
      | None \<Rightarrow> findall s)"
  by pat_completeness auto
termination
proof -
  have href: "length r < length s" if m: "match_href s = Some (g, r)" for s g r
  proof -
    from m obtain q s1 where s1: "drop 5 s = q # s1"
      by (auto simp: match_href_def split: if_splits list.splits)
    from m s1 obtain q' s2 where s2: "dropWhile (\<lambda>c. \<not> is_quote c) s1 = q' # s2"
      by (auto simp: match_href_def Let_def split: if_splits list.splits)
    from m s1 s2 obtain gt where s3: "dropWhile (\<lambda>c. c \<noteq> CHR ''>'') s2 = gt # r"
      by (auto simp: match_href_def Let_def split: if_splits list.splits)
    have "length r < length s2"
      using length_dropWhile_le [of "\<lambda>c. c \<noteq> CHR ''>''" s2] s3 by simp
    also have "length s2 < length s1"
      using length_dropWhile_le [of "\<lambda>c. \<not> is_quote c" s1] s2 by simp
    also have "length s1 < length s"
      using arg_cong [OF s1, of length] by simp
    finally show ?thesis .
  qed
  have gap: "length r < length s" if "match_gap s = Some (g, r)" for s g r
    using that
  proof (induction s)
    case Nil
    then show ?case by simp
  next
    case (Cons c s)
    then show ?case
      by (auto split: if_splits option.splits dest: href less_SucI)
  qed
  have anchor: "length r < length s" if "match_anchor s = Some (g, r)" for s g r
  proof -
    from that have "match_gap (drop 2 s) = Some (g, r)"
      by (simp add: match_anchor_def split: if_splits)
    then have "length r < length (drop 2 s)"
      by (rule gap)
    then show ?thesis by simp
  qed
  show ?thesis
    by (relation "measure length") (auto dest: anchor)
qed

definition extract_csv_urls :: "downloader \<Rightarrow> eml \<Rightarrow> world \<Rightarrow> string list \<times> world" where
  "extract_csv_urls d src w =
     (case src of
        Missing \<Rightarrow> ([], log_download (''EMAIL NOT FOUND: '' @ eml_path d) w)
      | Unreadable e \<Rightarrow> ([], log_download (''FAILED TO PARSE EMAIL: '' @ e) w)
      | Parsed msg \<Rightarrow>
          (let body = html_body msg;
               links = findall body;
               csv_urls = map strip (filter (\<lambda>url. endswith (lower url) ''.csv'') links)
           in (csv_urls,
               log_agg (''Found '' @ str_nat (length csv_urls) @ '' .csv URLs in email.'') w)))"

section \<open>The libraries and the operating system\<close>

text \<open>
  What one pass through the \<^verbatim>\<open>try\<close> block of \<^verbatim>\<open>download_file\<close> meets before it opens
  the local file: a response with its status and the result of \<^verbatim>\<open>response.read()\<close> (the
  payload, or the text of the exception it raises), or an exception: an \<^verbatim>\<open>HTTPError\<close>
  with its code, a \<^verbatim>\<open>URLError\<close> with its reason, or any other exception with its text,
  raised when the request is built or by \<^verbatim>\<open>urlopen\<close>.
\<close>

datatype urlopen_result =
    Response nat "string + string"
  | HTTPError nat
  | URLError string
  | OtherException string

text \<open>
  What reading one raw file gives: an exception (with its text), or the verdict of
  \<^verbatim>\<open>csv.Sniffer().has_header\<close> on the first 1024 characters (false when the sniffer
  raises \<^verbatim>\<open>csv.Error\<close>) together with the rows of \<^verbatim>\<open>csv.reader\<close>.
\<close>

datatype csv_read = ReadError string | Rows bool "row list"

type_synonym csv_library = "string \<Rightarrow> csv_read"

text \<open>
  What the program does not decide itself:
  \<^item> \<open>bracketed_host\<close>: the check of a bracketed host by \<^verbatim>\<open>urlparse\<close>, see above;
  \<^item> \<open>fetch k url\<close>: what the pass number \<open>k\<close> of the run through the \<^verbatim>\<open>try\<close> block meets,
    for a URL;
  \<^item> \<open>clock k\<close>: \<^verbatim>\<open>int(time.time())\<close> at the moment when \<open>k\<close> passes have been made;
  \<^item> \<open>open_for_writing path\<close>: nothing when \<^verbatim>\<open>open\<close> of the path in a writing mode gives a
    file, or the text of the exception it raises;
  \<^item> \<open>read_csv\<close>: the CSV library, from the bytes of a file to the result of reading it.
\<close>

record env =
  bracketed_host :: "string \<Rightarrow> string option"
  fetch :: "nat \<Rightarrow> string \<Rightarrow> urlopen_result"
  clock :: "nat \<Rightarrow> nat"
  open_for_writing :: "string \<Rightarrow> string option"
  read_csv :: csv_library

section \<open>Fetcher\<close>

text \<open>
  The outcome of one attempt for the local path \<open>filepath\<close>: \<open>Inr\<close> the payload to store
  when the status is 200, the payload was read and the local file is opened, \<open>Inl\<close> the
  message \<^verbatim>\<open>msg\<close> of the branch taken otherwise.
\<close>

definition attempt_outcome :: "env \<Rightarrow> string \<Rightarrow> urlopen_result \<Rightarrow> string + string" where
  "attempt_outcome e filepath r =
     (case r of
        Response status body \<Rightarrow>
          (if status = 200 then
             (case body of
                Inr data \<Rightarrow>
                  (case open_for_writing e filepath of
                     None \<Rightarrow> Inr data
                   | Some err \<Rightarrow> Inl err)
              | Inl err \<Rightarrow> Inl err)
           else Inl (''HTTP '' @ str_nat status))
      | HTTPError code \<Rightarrow> Inl (''HTTP '' @ str_nat code)
      | URLError reason \<Rightarrow> Inl reason
      | OtherException err \<Rightarrow> Inl err)"

definition success_line :: "string \<Rightarrow> string \<Rightarrow> string" where
  "success_line url filename = ''DOWNLOAD: '' @ url @ '' -> '' @ filename @ '' - SUCCESS''"

definition failed_line :: "string \<Rightarrow> string \<Rightarrow> string \<Rightarrow> string" where
  "failed_line url filename msg =
     ''DOWNLOAD: '' @ url @ '' -> '' @ filename @ '' - FAILED ('' @ msg @ '')''"

text \<open>
  The loop \<^verbatim>\<open>for attempt in range(1, self.retry_attempts + 1)\<close>, over the attempt numbers
  that are left. Each pass is one attempt; a failed pass sleeps and continues when
  attempts remain, and logs FAILED and returns \<^verbatim>\<open>None\<close> otherwise.
\<close>

fun download_attempts ::
  "downloader \<Rightarrow> env \<Rightarrow> string \<Rightarrow> string \<Rightarrow> nat list \<Rightarrow> world \<Rightarrow> string option \<times> world" where
  "download_attempts d e url filename [] w = (None, w)"
| "download_attempts d e url filename (attempt # rest) w =
     (case attempt_outcome e (path_join (raw_dir d) filename)
             (fetch e (length (attempts w)) url) of
        Inr data \<Rightarrow>
          (Some (path_join (raw_dir d) filename),
           log_download (success_line url filename)
             (write_raw filename data (w\<lparr>attempts := attempts w @ [url]\<rparr>)))
      | Inl msg \<Rightarrow>
          (if attempt < retry_attempts d then
             download_attempts d e url filename rest
               (w\<lparr>attempts := attempts w @ [url], sleeps := sleeps w @ [retry_delay d]\<rparr>)
           else
             (None,
              log_download (failed_line url filename msg)
                (w\<lparr>attempts := attempts w @ [url]\<rparr>))))"

text \<open>
  The local file name of a URL; \<open>now\<close> is \<^verbatim>\<open>int(time.time())\<close>. The \<^verbatim>\<open>ValueError\<close> of
  \<^verbatim>\<open>urlparse\<close> is raised before the loop and outside every \<^verbatim>\<open>try\<close>: it leaves
  \<^verbatim>\<open>download_file\<close>.
\<close>

definition local_filename :: "env \<Rightarrow> nat \<Rightarrow> string \<Rightarrow> string + string" where
  "local_filename e now url =
     (case urlparse_path (bracketed_host e) url of
        Inl err \<Rightarrow> Inl err
      | Inr path \<Rightarrow>
          (let filename = basename path in
           if filename = [] \<or> CHR ''.'' \<notin> set filename
           then Inr (''download_'' @ str_nat now @ ''.csv'')
           else Inr filename))"

definition download_file ::
  "downloader \<Rightarrow> env \<Rightarrow> nat \<Rightarrow> string \<Rightarrow> world \<Rightarrow> (string option \<times> world) result" where
  "download_file d e now url w =
     (case local_filename e now url of
        Inl err \<Rightarrow> Raises err w
      | Inr filename \<Rightarrow>
          Returns (download_attempts d e url filename [1..<retry_attempts d + 1] w))"

section \<open>Aggregator\<close>

definition read_raw :: "csv_library \<Rightarrow> world \<Rightarrow> string \<Rightarrow> csv_read" where
  "read_raw rd w file =
     (case map_of (raw_files w) file of
        None \<Rightarrow> ReadError ''No such file or directory''
      | Some bytes \<Rightarrow> rd bytes)"

text \<open>
  One pass of the loop over the files; the loop's variables \<^verbatim>\<open>header_written\<close> and
  \<^verbatim>\<open>total_data_rows\<close> travel with the world.
\<close>

definition aggregate_file ::
  "csv_library \<Rightarrow> bool \<times> nat \<times> world \<Rightarrow> string \<Rightarrow> bool \<times> nat \<times> world" where
  "aggregate_file rd s file =
     (case s of (header_written, total_data_rows, w) \<Rightarrow>
        (case read_raw rd w file of
           ReadError e \<Rightarrow>
             (header_written, total_data_rows, log_agg (file @ '' - FAILED ('' @ e @ '')'') w)
         | Rows has_header rows \<Rightarrow>
             (if rows = [] then
                (header_written, total_data_rows, log_agg (file @ '' - SKIPPED (empty)'') w)
              else
                (let w1 = (if \<not> header_written then writerow (hd rows) w else w);
                     data_rows = (if \<not> header_written then tl rows
                                  else if has_header then tl rows else rows);
                     w2 = foldl (\<lambda>w' r. writerow r w') w1 data_rows
                 in (True, total_data_rows + length data_rows,
                     log_agg (file @ '' - ADDED ('' @ str_nat (length data_rows) @ '' rows)'')
                       w2)))))"

definition csv_files :: "world \<Rightarrow> string list" where
  "csv_files w = filter (\<lambda>f. endswith (lower f) ''.csv'') (map fst (raw_files w))"

definition combined_path :: "downloader \<Rightarrow> string" where
  "combined_path d = path_join (output_dir d) (''combined_'' @ output_name d @ ''.csv'')"

text \<open>
  The combined file is opened before the loop. When that raises, the outer handler logs
  the one line AGGREGATION FAILED: there is no combined file, no FINAL line and no line
  on the console.
\<close>

definition aggregate_csv_files :: "downloader \<Rightarrow> env \<Rightarrow> world \<Rightarrow> world" where
  "aggregate_csv_files d e w =
     (if csv_files w = [] then log_agg ''No CSV files to aggregate.'' w
      else
        (case open_for_writing e (combined_path d) of
           Some err \<Rightarrow> log_agg (''AGGREGATION FAILED: '' @ err) w
         | None \<Rightarrow>
             (case foldl (aggregate_file (read_csv e)) (False, 0, w\<lparr>combined := Some []\<rparr>)
                     (csv_files w) of
                (header_written, total_data_rows, w1) \<Rightarrow>
                  print (''Aggregation complete: '' @ combined_path d)
                    (log_agg
                       (''FINAL: combined_'' @ output_name d @ ''.csv - CREATED (''
                          @ str_nat (total_data_rows + (if header_written then 1 else 0))
                          @ '' rows)'')
                       w1))))"

section \<open>Pipeline driver\<close>

text \<open>The loop of \<^verbatim>\<open>run\<close> over the links. An exception of a download ends it.\<close>

fun download_all ::
  "downloader \<Rightarrow> env \<Rightarrow> string list \<Rightarrow> string list \<times> world \<Rightarrow> (string list \<times> world) result" where
  "download_all d e [] s = Returns s"
| "download_all d e (url # urls) (downloaded_files, w) =
     (case download_file d e (clock e (length (attempts w))) url w of
        Raises err w1 \<Rightarrow> Raises err w1
      | Returns (Some filepath, w1) \<Rightarrow>
          download_all d e urls
            (if filepath \<noteq> [] then downloaded_files @ [filepath] else downloaded_files, w1)
      | Returns (None, w1) \<Rightarrow> download_all d e urls (downloaded_files, w1))"

definition run :: "downloader \<Rightarrow> eml \<Rightarrow> env \<Rightarrow> world \<Rightarrow> world result" where
  "run d src e w =
     (case extract_csv_urls d src
             (print (''Output folder: '' @ output_dir d)
                (print (''Parsing email: '' @ eml_path d) w)) of
        (urls, w1) \<Rightarrow>
          (if urls = [] then Returns (print '' No .csv URLs found in email.'' w1)
           else
             (case download_all d e urls ([], w1) of
                Raises err w2 \<Rightarrow> Raises err w2
              | Returns (downloaded_files, w2) \<Rightarrow>
                  Returns
                    (print (''Process complete. Check logs in: '' @ logs_dir d)
                       (aggregate_csv_files d e
                          (print ('' Downloaded '' @ str_nat (length downloaded_files)
                                    @ '' out of '' @ str_nat (length urls) @ '' files.'')
                             w2))))))"

section \<open>What the aggregation loop computes\<close>

text \<open>
  The effect of the loop, file by file, as functions of what reading each file gives:
  whether the file has rows, the rows it adds to the combined file (\<open>hw\<close> is
  \<^verbatim>\<open>header_written\<close> when the file is reached), the number of its rows counted as
  data, and its line in the aggregation log.
\<close>

definition has_rows :: "csv_read \<Rightarrow> bool" where
  "has_rows r = (case r of ReadError e \<Rightarrow> False | Rows h rows \<Rightarrow> rows \<noteq> [])"

definition file_rows :: "bool \<Rightarrow> csv_read \<Rightarrow> row list" where
  "file_rows hw r =
     (case r of ReadError e \<Rightarrow> [] | Rows h rows \<Rightarrow> if hw \<and> h then tl rows else rows)"

definition file_data_count :: "bool \<Rightarrow> csv_read \<Rightarrow> nat" where
  "file_data_count hw r =
     (case r of
        ReadError e \<Rightarrow> 0
      | Rows h rows \<Rightarrow> if hw \<and> \<not> h then length rows else length rows - 1)"

definition file_line :: "bool \<Rightarrow> string \<Rightarrow> csv_read \<Rightarrow> string" where
  "file_line hw file r =
     (case r of
        ReadError e \<Rightarrow> file @ '' - FAILED ('' @ e @ '')''
      | Rows h rows \<Rightarrow>
          if rows = [] then file @ '' - SKIPPED (empty)''
          else file @ '' - ADDED ('' @ str_nat (file_data_count hw r) @ '' rows)'')"

fun loop_rows :: "bool \<Rightarrow> csv_read list \<Rightarrow> row list" where
  "loop_rows hw [] = []"
| "loop_rows hw (r # rs) = file_rows hw r @ loop_rows (hw \<or> has_rows r) rs"

fun loop_lines :: "bool \<Rightarrow> (string \<times> csv_read) list \<Rightarrow> string list" where
  "loop_lines hw [] = []"
| "loop_lines hw ((f, r) # rs) = file_line hw f r # loop_lines (hw \<or> has_rows r) rs"

fun loop_count :: "bool \<Rightarrow> csv_read list \<Rightarrow> nat" where
  "loop_count hw [] = 0"
| "loop_count hw (r # rs) = file_data_count hw r + loop_count (hw \<or> has_rows r) rs"

section \<open>Sample inputs\<close>

text \<open>
  Inputs for the examples below: the bytes of a file with a header line and one data
  line, the bytes of a file with two data lines and no header, and a CSV library that
  reads these two as the Python library does, the empty file as no rows, and anything
  else as undecodable, with the text of Python's \<^verbatim>\<open>UnicodeDecodeError\<close> for a first byte
  \<^verbatim>\<open>0xff\<close>. \<open>world_of\<close> is the state at the start of an aggregation with the given raw
  directory and no combined file yet.
\<close>

definition headered_bytes :: string where
  "headered_bytes = ''id,name'' @ [CHR 0x0A] @ ''1,Ann'' @ [CHR 0x0A]"

definition plain_bytes :: string where
  "plain_bytes = ''7,Cid'' @ [CHR 0x0A] @ ''8,Dan'' @ [CHR 0x0A]"

definition quoted :: "string \<Rightarrow> string" where
  "quoted s = [CHR 0x27] @ s @ [CHR 0x27]"

definition decode_error :: string where
  "decode_error =
     quoted ''utf-8'' @ '' codec can'' @ [CHR 0x27]
       @ ''t decode byte 0xff in position 0: invalid start byte''"

definition sample_csv :: csv_library where
  "sample_csv bytes =
     (if bytes = headered_bytes then Rows True [[''id'', ''name''], [''1'', ''Ann'']]
      else if bytes = plain_bytes then Rows False [[''7'', ''Cid''], [''8'', ''Dan'']]
      else if bytes = [] then Rows False []
      else ReadError decode_error)"

definition world_of :: "(string \<times> string) list \<Rightarrow> world" where
  "world_of files =
     \<lparr> raw_files = files, combined = None, downloads_log = [], aggregation_log = [],
       console = [], attempts = [], sleeps = [] \<rparr>"

text \<open>
  Two downloaders as the constructor builds them: one for the run name \<^verbatim>\<open>July\<close>, one for
  a run name with a slash.
\<close>

definition july :: downloader where
  "july = init ''tickets.eml'' ''July'' ''output'' ''20250101_000000''"

definition slashed :: downloader where
  "slashed = init ''tickets.eml'' ''a/b'' ''output'' ''20250101_000000''"

text \<open>
  Opening a file for writing in the fresh directories of a run: a file directly in the
  output directory or in the raw directory is opened; the names \<^verbatim>\<open>.\<close> and \<^verbatim>\<open>..\<close> are
  directories; any other path leads through a directory that does not exist.
\<close>

definition run_dir_open :: "downloader \<Rightarrow> string \<Rightarrow> string option" where
  "run_dir_open d path =
     (if basename path \<in> set ['''', ''.'', ''..'']
      then Some (''[Errno 21] Is a directory: '' @ quoted path)
      else if path = path_join (output_dir d) (basename path)
              \<or> path = path_join (raw_dir d) (basename path)
      then None
      else Some (''[Errno 2] No such file or directory: '' @ quoted path))"


definition dead_net :: "nat \<Rightarrow> string \<Rightarrow> urlopen_result" where
  "dead_net k url = (if k < 2 then Response 204 (Inr []) else HTTPError 404)"


definition mirror_net :: "nat \<Rightarrow> string \<Rightarrow> urlopen_result" where
  "mirror_net k url = Response 200 (Inr url)"

text \<open>
  The sample environment of a downloader and a network: a Python without a check of
  bracketed hosts, a clock that starts at 1700000000, and the opening and the CSV library
  above.
\<close>

definition sample_env :: "downloader \<Rightarrow> (nat \<Rightarrow> string \<Rightarrow> urlopen_result) \<Rightarrow> env" where
  "sample_env d net =
     \<lparr> bracketed_host = (\<lambda>netloc. None), fetch = net, clock = (\<lambda>k. 1700000000 + k),
       open_for_writing = run_dir_open d, read_csv = sample_csv \<rparr>"

definition july_env :: env where
  "july_env = sample_env july mirror_net"

text \<open>
  Sample messages: an anchor tag with a double-quoted target, and a message that is not
  multipart and has the given text as its payload.
\<close>

definition anchor :: "string \<Rightarrow> string" where
  "anchor url = ''<a href='' @ [CHR 0x22] @ url @ [CHR 0x22] @ ''>''"

definition html_message :: "string \<Rightarrow> message" where
  "html_message body = \<lparr> is_multipart = False, walk = [], get_payload = Some body \<rparr>"

section \<open>Bodies of anchor tags\<close>

text \<open>
  An anchor tag written out in its parts: the opening \<^verbatim>\<open><a\<close>, the text before the
  attribute, the keyword \<^verbatim>\<open>href=\<close>, the opening quote, the target, the closing quote, and
  the rest of the tag before its \<^verbatim>\<open>>\<close>.
\<close>

record tag =
  start :: string
  lead :: string
  keyword :: string
  quote1 :: char
  target :: string
  quote2 :: char
  trail :: string








text \<open>
  An anchor tag with two attributes: its \<^verbatim>\<open>href\<close>, and after it one whose name ends in
  \<^verbatim>\<open>href\<close>.
\<close>

definition two_href_tag :: string where
  "two_href_tag =
     ''<a href='' @ [CHR 0x22] @ ''http://x/a.csv'' @ [CHR 0x22] @ '' data-href=''
       @ [CHR 0x22] @ ''http://x/b.csv'' @ [CHR 0x22] @ ''>''"

section \<open>File name extensions\<close>

text \<open>
  \<^verbatim>\<open>os.path.splitext(name)[1]\<close> for a base name: the text from the last dot on, when a
  character other than a dot stands before that dot, and nothing otherwise.
\<close>

definition extension :: "string \<Rightarrow> string" where
  "extension name =
     (let stem = rev (drop 1 (dropWhile (\<lambda>c. c \<noteq> CHR ''.'') (rev name))) in
      if CHR ''.'' \<in> set name \<and> (\<exists>c \<in> set stem. c \<noteq> CHR ''.'')
      then CHR ''.'' # rev (takeWhile (\<lambda>c. c \<noteq> CHR ''.'') (rev name))
      else [])"

section \<open>Properties of the aggregation loop\<close>

lemma foldl_writerow:
  "foldl (\<lambda>w' r. writerow r w') w rs = w\<lparr>combined := map_option (\<lambda>out. out @ rs) (combined w)\<rparr>"
proof (induction rs arbitrary: w)
  case Nil
  then show ?case by (simp add: option.map_ident)
next
  case (Cons r rs)
  then show ?case by (simp add: writerow_def option.map_comp comp_def)
qed

lemma aggregate_file_step:
  "aggregate_file rd (hw, t, w) f =
     (hw \<or> has_rows (read_raw rd w f), t + file_data_count hw (read_raw rd w f),
      w\<lparr>combined := map_option (\<lambda>out. out @ file_rows hw (read_raw rd w f)) (combined w),
        aggregation_log := aggregation_log w @ [file_line hw f (read_raw rd w f)]\<rparr>)"
proof (cases "read_raw rd w f")
  case (ReadError e)
  then show ?thesis
    by (simp add: aggregate_file_def has_rows_def file_data_count_def file_rows_def
        file_line_def log_agg_def option.map_ident)
next
  case (Rows h rows)
  show ?thesis
  proof (cases rows)
    case Nil
    with Rows show ?thesis
      by (simp add: aggregate_file_def has_rows_def file_data_count_def file_rows_def
          file_line_def log_agg_def option.map_ident)
  next
    case (Cons r rs)
    with Rows show ?thesis
      by (simp add: aggregate_file_def has_rows_def file_data_count_def file_rows_def
          file_line_def log_agg_def foldl_writerow Let_def)
        (simp add: writerow_def option.map_comp comp_def)
  qed
qed

lemma read_raw_same: "raw_files w' = raw_files w \<Longrightarrow> read_raw rd w' f = read_raw rd w f"
  by (simp add: read_raw_def)

lemma aggregate_loop:
  "foldl (aggregate_file rd) (hw, t, w) fs =
     (hw \<or> (\<exists>f \<in> set fs. has_rows (read_raw rd w f)),
      t + loop_count hw (map (read_raw rd w) fs),
      w\<lparr>combined := map_option (\<lambda>out. out @ loop_rows hw (map (read_raw rd w) fs)) (combined w),
        aggregation_log :=
          aggregation_log w @ loop_lines hw (map (\<lambda>f. (f, read_raw rd w f)) fs)\<rparr>)"
proof (induction fs arbitrary: hw t w)
  case Nil
  then show ?case by (simp add: option.map_ident)
next
  case (Cons f fs)
  let ?r = "read_raw rd w f"
  let ?w1 = "w\<lparr>combined := map_option (\<lambda>out. out @ file_rows hw ?r) (combined w),
        aggregation_log := aggregation_log w @ [file_line hw f ?r]\<rparr>"
  have same: "\<And>g. read_raw rd ?w1 g = read_raw rd w g"
    by (simp add: read_raw_def)
  have "foldl (aggregate_file rd) (hw, t, w) (f # fs) =
        foldl (aggregate_file rd) (hw \<or> has_rows ?r, t + file_data_count hw ?r, ?w1) fs"
    by (simp add: aggregate_file_step)
  also have "\<dots> = (hw \<or> (\<exists>f \<in> set (f # fs). has_rows (read_raw rd w f)),
      t + loop_count hw (map (read_raw rd w) (f # fs)),
      w\<lparr>combined := map_option (\<lambda>out. out @ loop_rows hw (map (read_raw rd w) (f # fs))) (combined w),
        aggregation_log :=
          aggregation_log w @ loop_lines hw (map (\<lambda>f. (f, read_raw rd w f)) (f # fs))\<rparr>)"
    unfolding Cons.IH same
    by (simp add: option.map_comp comp_def disj_ac)
  finally show ?case .
qed

lemma aggregate_csv_files_nonempty:
  assumes "csv_files w \<noteq> []" and "open_for_writing env (combined_path d) = None"
  shows "aggregate_csv_files d env w =
     print (''Aggregation complete: '' @ combined_path d)
       (log_agg
          (''FINAL: combined_'' @ output_name d @ ''.csv - CREATED (''
             @ str_nat (loop_count False (map (read_raw (read_csv env) w) (csv_files w))
                 + (if \<exists>f \<in> set (csv_files w). has_rows (read_raw (read_csv env) w f) then 1 else 0))
             @ '' rows)'')
          (w\<lparr>combined := Some (loop_rows False (map (read_raw (read_csv env) w) (csv_files w))),
             aggregation_log :=
               aggregation_log w
                 @ loop_lines False (map (\<lambda>f. (f, read_raw (read_csv env) w f)) (csv_files w))\<rparr>))"
proof -
  have same: "\<And>g. read_raw (read_csv env) (w\<lparr>combined := Some []\<rparr>) g =
      read_raw (read_csv env) w g"
    by (simp add: read_raw_def)
  show ?thesis
    using assms unfolding aggregate_csv_files_def aggregate_loop same
    by simp
qed


section \<open>Facts about the sample inputs\<close>


lemma sample_env_fields:
  "bracketed_host (sample_env d net) netloc = None" "fetch (sample_env d net) = net"
  "clock (sample_env d net) k = 1700000000 + k"
  "open_for_writing (sample_env d net) = run_dir_open d"
  "read_csv (sample_env d net) = sample_csv"
  by (simp_all add: sample_env_def)

lemma july_paths:
  "eml_path july = ''tickets.eml''"
  "output_dir july = ''output/dtb.July_20250101_000000''"
  "raw_dir july = ''output/dtb.July_20250101_000000/raw_downloads''"
  "combined_path july = ''output/dtb.July_20250101_000000/combined_July.csv''"
  by (simp_all add: july_def init_def Let_def combined_path_def path_join_def startswith_def
      endswith_def)

lemma slashed_paths:
  "output_name slashed = ''a/b''"
  "output_dir slashed = ''output/dtb.a/b_20250101_000000''"
  "raw_dir slashed = ''output/dtb.a/b_20250101_000000/raw_downloads''"
  "combined_path slashed = ''output/dtb.a/b_20250101_000000/combined_a/b.csv''"
  by (simp_all add: slashed_def init_def Let_def combined_path_def path_join_def startswith_def
      endswith_def)

lemma july_env_fields:
  "bracketed_host july_env netloc = None" "fetch july_env = mirror_net"
  "clock july_env k = 1700000000 + k" "open_for_writing july_env = run_dir_open july"
  "read_csv july_env = sample_csv"
  by (simp_all add: july_env_def sample_env_fields)

lemma open_combined_july: "open_for_writing (sample_env july net) (combined_path july) = None"
  by (simp add: sample_env_fields july_paths run_dir_open_def basename_def path_join_def
      startswith_def endswith_def)

lemma open_combined_slashed:
  "open_for_writing (sample_env slashed net) (combined_path slashed) =
     Some (''[Errno 2] No such file or directory: ''
             @ quoted ''output/dtb.a/b_20250101_000000/combined_a/b.csv'')"
  by (simp add: sample_env_fields slashed_paths run_dir_open_def basename_def path_join_def
      startswith_def endswith_def)


lemma csv_files_world_of:
  "csv_files (world_of files) = filter (\<lambda>f. endswith (lower f) ''.csv'') (map fst files)"
  by (simp add: csv_files_def world_of_def)

lemma read_raw_world_of:
  "read_raw rd (world_of files) f =
     (case map_of files f of None \<Rightarrow> ReadError ''No such file or directory'' | Some b \<Rightarrow> rd b)"
  by (simp add: read_raw_def world_of_def)

section \<open>Aggregation of headered files\<close>



section \<open>Aggregation of a headered and a non-headered file\<close>

text \<open>
  Claim C1, as the code has it. Two files of \<open>m\<close> rows each are listed, one classified as
  headered and one not, and the combined file can be opened. The header of the combined
  file is the first row of the file processed first, whatever its classification, and
  that file gives its other \<open>m - 1\<close> rows as data. The file processed second gives all its
  \<open>m\<close> rows when it is the non-headered one, and \<open>m - 1\<close> rows when it is the headered
  one.
\<close>

theorem aggregate_headered_and_plain:
  assumes "csv_files w = [f1, f2]"
    and "open_for_writing env (combined_path d) = None"
    and "read_raw (read_csv env) w f1 = Rows h1 rows1"
    and "read_raw (read_csv env) w f2 = Rows h2 rows2"
    and "h1 \<noteq> h2" and "length rows1 = m" and "length rows2 = m" and "0 < m"
  shows "combined (aggregate_csv_files d env w) =
           Some (hd rows1 # tl rows1 @ (if h2 then tl rows2 else rows2))
       \<and> length (tl rows1 @ (if h2 then tl rows2 else rows2)) =
           (m - 1) + (if h1 then m else m - 1)"
proof -
  have ne: "csv_files w \<noteq> []" and rows1: "rows1 \<noteq> []"
    using assms by auto
  have "loop_rows False (map (read_raw (read_csv env) w) (csv_files w)) =
      hd rows1 # tl rows1 @ (if h2 then tl rows2 else rows2)"
    using assms(1,3,4) rows1 by (simp add: file_rows_def has_rows_def)
  then have "combined (aggregate_csv_files d env w) =
           Some (hd rows1 # tl rows1 @ (if h2 then tl rows2 else rows2))"
    unfolding aggregate_csv_files_nonempty [OF ne assms(2)] by (simp add: print_def log_agg_def)
  moreover have "length (tl rows1 @ (if h2 then tl rows2 else rows2)) =
           (m - 1) + (if h1 then m else m - 1)"
    using assms(5-8) by auto
  ultimately show ?thesis by simp
qed

theorem aggregate_headered_and_plain_witness:
  "open_for_writing july_env (combined_path july) = None
   \<and> combined (aggregate_csv_files july july_env
       (world_of [(''a.csv'', headered_bytes), (''b.csv'', plain_bytes)])) =
     Some [[''id'', ''name''], [''1'', ''Ann''], [''7'', ''Cid''], [''8'', ''Dan'']]
   \<and> combined (aggregate_csv_files july july_env
       (world_of [(''a.csv'', plain_bytes), (''b.csv'', headered_bytes)])) =
     Some [[''7'', ''Cid''], [''8'', ''Dan''], [''1'', ''Ann'']]"
proof -
  let ?w1 = "world_of [(''a.csv'', headered_bytes), (''b.csv'', plain_bytes)]"
  let ?w2 = "world_of [(''a.csv'', plain_bytes), (''b.csv'', headered_bytes)]"
  let ?rd = "read_csv july_env"
  have f1: "csv_files ?w1 = [''a.csv'', ''b.csv'']" and f2: "csv_files ?w2 = [''a.csv'', ''b.csv'']"
    by (simp_all add: csv_files_world_of endswith_def lower_def lower_char_def)
  have a1: "read_raw ?rd ?w1 ''a.csv'' = Rows True [[''id'', ''name''], [''1'', ''Ann'']]"
    and b1: "read_raw ?rd ?w1 ''b.csv'' = Rows False [[''7'', ''Cid''], [''8'', ''Dan'']]"
    and a2: "read_raw ?rd ?w2 ''a.csv'' = Rows False [[''7'', ''Cid''], [''8'', ''Dan'']]"
    and b2: "read_raw ?rd ?w2 ''b.csv'' = Rows True [[''id'', ''name''], [''1'', ''Ann'']]"
    by (simp_all add: july_env_fields read_raw_world_of sample_csv_def headered_bytes_def
        plain_bytes_def)
  have opened: "open_for_writing july_env (combined_path july) = None"
    unfolding july_env_def by (rule open_combined_july)
  show ?thesis
    using aggregate_headered_and_plain [OF f1 opened a1 b1, of 2]
      aggregate_headered_and_plain [OF f2 opened a2 b2, of 2] opened
    by simp
qed

text \<open>
  The claim as stated promises \<open>(m - 1) + m\<close> data rows in either order. With the
  non-headered file first and \<open>m = 2\<close>, the combined file has three rows, not four.
\<close>

theorem plain_first_counterexample:
  "csv_files (world_of [(''a.csv'', plain_bytes), (''b.csv'', headered_bytes)]) =
     [''a.csv'', ''b.csv'']
   \<and> read_raw (read_csv july_env)
         (world_of [(''a.csv'', plain_bytes), (''b.csv'', headered_bytes)]) ''a.csv''
       = Rows False [[''7'', ''Cid''], [''8'', ''Dan'']]
   \<and> read_raw (read_csv july_env)
         (world_of [(''a.csv'', plain_bytes), (''b.csv'', headered_bytes)]) ''b.csv''
       = Rows True [[''id'', ''name''], [''1'', ''Ann'']]
   \<and> combined (aggregate_csv_files july july_env
       (world_of [(''a.csv'', plain_bytes), (''b.csv'', headered_bytes)])) =
     Some [[''7'', ''Cid''], [''8'', ''Dan''], [''1'', ''Ann'']]
   \<and> length [[''7'', ''Cid''], [''8'', ''Dan''], [''1'', ''Ann'']] \<noteq> 1 + ((2 - 1) + 2)"
proof -
  let ?w = "world_of [(''a.csv'', plain_bytes), (''b.csv'', headered_bytes)]"
  let ?rd = "read_csv july_env"
  have files: "csv_files ?w = [''a.csv'', ''b.csv'']"
    by (simp add: csv_files_world_of endswith_def lower_def lower_char_def)
  have a: "read_raw ?rd ?w ''a.csv'' = Rows False [[''7'', ''Cid''], [''8'', ''Dan'']]"
    and b: "read_raw ?rd ?w ''b.csv'' = Rows True [[''id'', ''name''], [''1'', ''Ann'']]"
    by (simp_all add: july_env_fields read_raw_world_of sample_csv_def headered_bytes_def
        plain_bytes_def)
  have ne: "csv_files ?w \<noteq> []" by (simp add: files)
  have opened: "open_for_writing july_env (combined_path july) = None"
    unfolding july_env_def by (rule open_combined_july)
  have "combined (aggregate_csv_files july july_env ?w) =
     Some [[''7'', ''Cid''], [''8'', ''Dan''], [''1'', ''Ann'']]"
    unfolding aggregate_csv_files_nonempty [OF ne opened] files
    by (simp add: a b print_def log_agg_def file_rows_def has_rows_def)
  with files a b show ?thesis by simp
qed

section \<open>When the combined file exists\<close>

lemma loop_rows_none:
  assumes "\<forall>r \<in> set rs. \<not> has_rows r"
  shows "loop_rows hw rs = []"
  using assms
proof (induction rs arbitrary: hw)
  case Nil
  then show ?case by simp
next
  case (Cons r rs)
  then show ?case
    by (cases r) (simp_all add: file_rows_def has_rows_def)
qed

lemma loop_rows_some:
  assumes "\<exists>r \<in> set rs. has_rows r"
  shows "loop_rows False rs \<noteq> []"
  using assms
proof (induction rs)
  case Nil
  then show ?case by simp
next
  case (Cons r rs)
  then show ?case
    by (cases r) (auto simp: file_rows_def has_rows_def)
qed

lemma has_rows_iff:
  "has_rows r = (\<exists>h rows. r = Rows h rows \<and> rows \<noteq> [])"
  by (cases r) (simp_all add: has_rows_def)

lemma aggregate_csv_files_failed:
  assumes "csv_files w \<noteq> []" and "open_for_writing env (combined_path d) = Some err"
  shows "aggregate_csv_files d env w = log_agg (''AGGREGATION FAILED: '' @ err) w"
  using assms by (simp add: aggregate_csv_files_def)

text \<open>
  Claim C4, as the code has it. Starting without a combined file, the file exists after
  the aggregation exactly when the raw directory lists a file with the suffix and the
  combined file can be opened. With no such file the aggregation only adds one line to
  its log. When the opening raises, it only adds the line AGGREGATION FAILED. Otherwise
  the combined file is opened before any file is read, and it holds a row exactly when
  some listed file is read as non-empty: with only empty or unreadable files it exists
  and is empty.
\<close>

theorem combined_created_iff:
  assumes "combined w = None"
  shows "(combined (aggregate_csv_files d env w) \<noteq> None) =
           (csv_files w \<noteq> [] \<and> open_for_writing env (combined_path d) = None)
       \<and> (if csv_files w = []
           then aggregate_csv_files d env w = log_agg ''No CSV files to aggregate.'' w
           else (case open_for_writing env (combined_path d) of
                   Some err \<Rightarrow>
                     aggregate_csv_files d env w = log_agg (''AGGREGATION FAILED: '' @ err) w
                 | None \<Rightarrow>
                     (combined (aggregate_csv_files d env w) \<noteq> Some []) =
                     (\<exists>f \<in> set (csv_files w). \<exists>h rows.
                         read_raw (read_csv env) w f = Rows h rows \<and> rows \<noteq> [])))"
proof (cases "csv_files w = []")
  case True
  then show ?thesis
    using assms by (simp add: aggregate_csv_files_def log_agg_def)
next
  case False
  show ?thesis
  proof (cases "open_for_writing env (combined_path d)")
    case (Some err)
    with False assms show ?thesis
      by (simp add: aggregate_csv_files_failed log_agg_def)
  next
    case None
    let ?rs = "map (read_raw (read_csv env) w) (csv_files w)"
    have c: "combined (aggregate_csv_files d env w) = Some (loop_rows False ?rs)"
      unfolding aggregate_csv_files_nonempty [OF False None] by (simp add: print_def log_agg_def)
    have "(loop_rows False ?rs \<noteq> []) = (\<exists>r \<in> set ?rs. has_rows r)"
      using loop_rows_none [of ?rs False] loop_rows_some [of ?rs] by blast
    also have "\<dots> = (\<exists>f \<in> set (csv_files w). \<exists>h rows.
        read_raw (read_csv env) w f = Rows h rows \<and> rows \<noteq> [])"
      by (simp add: has_rows_iff)
    finally show ?thesis
      using False None c by simp
  qed
qed

theorem combined_created_iff_witness:
  "combined (aggregate_csv_files july july_env (world_of [(''notes.txt'', plain_bytes)])) = None
   \<and> aggregation_log (aggregate_csv_files july july_env
       (world_of [(''notes.txt'', plain_bytes)])) = [''No CSV files to aggregate.'']
   \<and> combined (aggregate_csv_files july july_env
       (world_of [(''a.csv'', []), (''b.csv'', [CHR 0xFF])])) = Some []
   \<and> combined (aggregate_csv_files slashed (sample_env slashed mirror_net)
       (world_of [(''a.csv'', headered_bytes)])) = None
   \<and> aggregation_log (aggregate_csv_files slashed (sample_env slashed mirror_net)
       (world_of [(''a.csv'', headered_bytes)])) =
       [''AGGREGATION FAILED: [Errno 2] No such file or directory: ''
          @ quoted ''output/dtb.a/b_20250101_000000/combined_a/b.csv'']"
proof -
  let ?w0 = "world_of [(''notes.txt'', plain_bytes)]"
  let ?w1 = "world_of [(''a.csv'', []), (''b.csv'', [CHR 0xFF])]"
  let ?w2 = "world_of [(''a.csv'', headered_bytes)]"
  have n0: "combined ?w0 = None" and n1: "combined ?w1 = None" and n2: "combined ?w2 = None"
    by (simp_all add: world_of_def)
  have f0: "csv_files ?w0 = []" and f1: "csv_files ?w1 = [''a.csv'', ''b.csv'']"
    and f2: "csv_files ?w2 = [''a.csv'']"
    by (simp_all add: csv_files_world_of endswith_def lower_def lower_char_def)
  have a: "read_raw (read_csv july_env) ?w1 ''a.csv'' = Rows False []"
    and b: "read_raw (read_csv july_env) ?w1 ''b.csv'' = ReadError decode_error"
    by (simp_all add: july_env_fields read_raw_world_of sample_csv_def headered_bytes_def
        plain_bytes_def)
  have opened: "open_for_writing july_env (combined_path july) = None"
    unfolding july_env_def by (rule open_combined_july)
  have "combined (aggregate_csv_files july july_env ?w0) = None
      \<and> aggregation_log (aggregate_csv_files july july_env ?w0) = [''No CSV files to aggregate.'']"
    using combined_created_iff [OF n0, of july july_env] unfolding f0
    by (simp add: log_agg_def world_of_def)
  moreover have "combined (aggregate_csv_files july july_env ?w1) = Some []"
    using combined_created_iff [OF n1, of july july_env] unfolding f1
    by (simp add: a b opened)
  moreover have "combined (aggregate_csv_files slashed (sample_env slashed mirror_net) ?w2) = None
      \<and> aggregation_log (aggregate_csv_files slashed (sample_env slashed mirror_net) ?w2) =
       [''AGGREGATION FAILED: [Errno 2] No such file or directory: ''
          @ quoted ''output/dtb.a/b_20250101_000000/combined_a/b.csv'']"
    using combined_created_iff [OF n2, of slashed "sample_env slashed mirror_net"] unfolding f2
    by (simp add: open_combined_slashed log_agg_def world_of_def)
  ultimately show ?thesis by simp
qed

text \<open>
  The claim as stated has no combined file when only empty files are listed. With one
  empty file the combined file is there, without rows.
\<close>

theorem only_empty_counterexample:
  "combined (world_of [(''a.csv'', [])]) = None
   \<and> csv_files (world_of [(''a.csv'', [])]) = [''a.csv'']
   \<and> read_raw (read_csv july_env) (world_of [(''a.csv'', [])]) ''a.csv'' = Rows False []
   \<and> combined (aggregate_csv_files july july_env (world_of [(''a.csv'', [])])) = Some []"
proof -
  let ?w = "world_of [(''a.csv'', [])]"
  have files: "csv_files ?w = [''a.csv'']"
    by (simp add: csv_files_world_of endswith_def lower_def lower_char_def)
  have a: "read_raw (read_csv july_env) ?w ''a.csv'' = Rows False []"
    by (simp add: july_env_fields read_raw_world_of sample_csv_def headered_bytes_def
        plain_bytes_def)
  have ne: "csv_files ?w \<noteq> []" by (simp add: files)
  have opened: "open_for_writing july_env (combined_path july) = None"
    unfolding july_env_def by (rule open_combined_july)
  have "combined (aggregate_csv_files july july_env ?w) = Some []"
    unfolding aggregate_csv_files_nonempty [OF ne opened] files
    by (simp add: a print_def log_agg_def file_rows_def)
  with files a show ?thesis by (simp add: world_of_def)
qed

section \<open>Empty and unreadable files\<close>








section \<open>Retries of the fetcher\<close>

lemma attempt_outcome_success:
  "(attempt_outcome e p r = Inr data) =
     (r = Response 200 (Inr data) \<and> open_for_writing e p = None)"
  by (auto simp: attempt_outcome_def split: urlopen_result.splits sum.splits option.splits)

lemma upt_attempts: "[1..<3 + 1] = [1, 2, 3::nat]"
  by (simp add: upt_rec)

lemma three_attempts:
  "retry_attempts d = 3 \<Longrightarrow> local_filename e now url = Inr filename \<Longrightarrow>
   download_file d e now url w =
     Returns (download_attempts d e url filename [1, 2, 3] w)"
  unfolding download_file_def by (simp only: upt_attempts sum.case)

lemma download_file_raises:
  "download_file d e now url w = Raises err w' \<Longrightarrow>
   w' = w \<and> local_filename e now url = Inl err"
  by (simp add: download_file_def split: sum.splits)

lemma retry_july: "retry_attempts july = 3" "retry_delay july = 2"
  by (simp_all add: july_def init_def Let_def)

lemma no_bracket_check: "bracketed_host (sample_env d net) = (\<lambda>netloc. None)"
  by (simp add: sample_env_def)

lemma paths_of_samples:
  "urlparse_path (\<lambda>netloc. None) ''http://x/a.csv'' = Inr ''/a.csv''"
  "urlparse_path (\<lambda>netloc. None) ''http://y/reports/a.csv'' = Inr ''/reports/a.csv''"
  "urlparse_path (\<lambda>netloc. None) ''http://x/download'' = Inr ''/download''"
  "urlparse_path (\<lambda>netloc. None) ''http://x/'' = Inr ''/''"
  "urlparse_path (\<lambda>netloc. None) ''http://x/report.'' = Inr ''/report.''"
  "urlparse_path (\<lambda>netloc. None) ''http://x/.hidden'' = Inr ''/.hidden''"
  "urlparse_path (\<lambda>netloc. None) ''http://[x/a.csv'' = Inl ''Invalid IPv6 URL''"
  by code_simp+

lemma str_nat_sample: "str_nat 1700000000 = ''1700000000''"
  by (simp add: str_nat.simps digit_char_def)

lemma local_filename_samples:
  "local_filename (sample_env d net) now ''http://x/a.csv'' = Inr ''a.csv''"
  "local_filename (sample_env d net) now ''http://y/reports/a.csv'' = Inr ''a.csv''"
  "local_filename (sample_env d net) now ''http://x/report.'' = Inr ''report.''"
  "local_filename (sample_env d net) now ''http://x/.hidden'' = Inr ''.hidden''"
  "local_filename (sample_env d net) now ''http://[x/a.csv'' = Inl ''Invalid IPv6 URL''"
  by (simp_all add: local_filename_def no_bracket_check paths_of_samples basename_def)

lemma open_raw_july:
  "run_dir_open july ''output/dtb.July_20250101_000000/raw_downloads/a.csv'' = None"
  "run_dir_open july ''output/dtb.July_20250101_000000/raw_downloads/.hidden'' = None"
  "run_dir_open july
     ''output/dtb.July_20250101_000000/raw_downloads/download_1700000000.csv'' = None"
  by (simp_all add: run_dir_open_def july_paths basename_def path_join_def startswith_def
      endswith_def)

lemma raw_path_july:
  "path_join (raw_dir july) ''a.csv'' = ''output/dtb.July_20250101_000000/raw_downloads/a.csv''"
  "path_join (raw_dir july) ''.hidden'' =
     ''output/dtb.July_20250101_000000/raw_downloads/.hidden''"
  "path_join (raw_dir july) ''download_1700000000.csv'' =
     ''output/dtb.July_20250101_000000/raw_downloads/download_1700000000.csv''"
  by (simp_all add: july_paths path_join_def startswith_def endswith_def)


lemma dead_outcome:
  "attempt_outcome e p (dead_net k url) = (if k < 2 then Inl ''HTTP 204'' else Inl ''HTTP 404'')"
  by (simp add: dead_net_def attempt_outcome_def str_nat.simps digit_char_def)


lemma mirror_outcome:
  "attempt_outcome (sample_env july net)
     ''output/dtb.July_20250101_000000/raw_downloads/a.csv'' (mirror_net k url) = Inr url"
  "attempt_outcome (sample_env july net)
     ''output/dtb.July_20250101_000000/raw_downloads/.hidden'' (mirror_net k url) = Inr url"
  "attempt_outcome (sample_env july net)
     ''output/dtb.July_20250101_000000/raw_downloads/download_1700000000.csv''
     (mirror_net k url) = Inr url"
  by (simp_all add: mirror_net_def attempt_outcome_def sample_env_fields open_raw_july)






section \<open>Where the fetcher stores a download\<close>

text \<open>
  What a call of the retry loop leaves in the raw directory: nothing new when it returns
  \<^verbatim>\<open>None\<close>, and the payload of a response with status 200 under the file name when it
  returns the path, which it does only after the local file was opened.
\<close>

lemma map_of_write_file: "map_of (write_file name data fs) name = Some data"
  by (induction fs) auto

lemma names_write_file:
  "map fst (write_file name data fs) =
     (if name \<in> fst ` set fs then map fst fs else map fst fs @ [name])"
proof (induction fs)
  case Nil
  then show ?case by simp
next
  case (Cons p fs)
  then show ?case by (cases p) force
qed

lemma distinct_write_file:
  "distinct (map fst fs) \<Longrightarrow> distinct (map fst (write_file name data fs))"
  by (simp add: names_write_file)

lemma download_attempts_result:
  assumes "download_attempts d e url filename todo w = (result, w')"
  shows "(result = None \<and> raw_files w' = raw_files w
          \<or> (\<exists>k data. result = Some (path_join (raw_dir d) filename)
                \<and> fetch e k url = Response 200 (Inr data)
                \<and> open_for_writing e (path_join (raw_dir d) filename) = None
                \<and> raw_files w' = write_file filename data (raw_files w)))
       \<and> combined w' = combined w"
  using assms
proof (induction todo arbitrary: w)
  case Nil
  then show ?case by simp
next
  case (Cons attempt rest)
  let ?p = "path_join (raw_dir d) filename"
  show ?case
  proof (cases "attempt_outcome e ?p (fetch e (length (attempts w)) url)")
    case (Inr data)
    then have "fetch e (length (attempts w)) url = Response 200 (Inr data)
        \<and> open_for_writing e ?p = None"
      by (simp add: attempt_outcome_success)
    moreover from Inr Cons.prems have "result = Some ?p
        \<and> raw_files w' = write_file filename data (raw_files w) \<and> combined w' = combined w"
      by (auto simp: log_download_def write_raw_def)
    ultimately show ?thesis by blast
  next
    case (Inl msg)
    show ?thesis
    proof (cases "attempt < retry_attempts d")
      case True
      with Inl Cons.prems have "download_attempts d e url filename rest
          (w\<lparr>attempts := attempts w @ [url], sleeps := sleeps w @ [retry_delay d]\<rparr>) =
            (result, w')"
        by simp
      from Cons.IH [OF this] show ?thesis by simp
    next
      case False
      with Inl Cons.prems show ?thesis
        by (auto simp: log_download_def)
    qed
  qed
qed

lemma download_file_result:
  assumes "download_file d e now url w = Returns (result, w')"
  shows "\<exists>filename. local_filename e now url = Inr filename
       \<and> download_attempts d e url filename [1..<retry_attempts d + 1] w = (result, w')"
  using assms by (simp add: download_file_def del: upt_Suc split: sum.splits)

text \<open>
  Claim C8, as the code has it. For a link that \<^verbatim>\<open>urlparse\<close> accepts: when the base name
  of the path is empty or has no dot at all, the local file name is \<^verbatim>\<open>download_\<close>, the
  time in seconds and \<^verbatim>\<open>.csv\<close>; it ends in the suffix, and a successful call returns the
  path of that name in the raw directory and has stored the payload of a response with
  status 200 under it. When the base name has a dot anywhere, also as its first or its
  last character, the base name is the local file name as it is, and a successful call
  stores the payload under it.
\<close>

theorem synthesized_filename:
  assumes "urlparse_path (bracketed_host env) url = Inr path"
  shows "(basename path = [] \<or> CHR ''.'' \<notin> set (basename path) \<longrightarrow>
            local_filename env now url = Inr (''download_'' @ str_nat now @ ''.csv'')
            \<and> endswith (''download_'' @ str_nat now @ ''.csv'') ''.csv''
            \<and> (download_file d env now url w = Returns (Some filepath, w') \<longrightarrow>
                 filepath = path_join (raw_dir d) (''download_'' @ str_nat now @ ''.csv'')
                 \<and> (\<exists>k data. fetch env k url = Response 200 (Inr data)
                       \<and> map_of (raw_files w') (''download_'' @ str_nat now @ ''.csv'') =
                           Some data)))
       \<and> (CHR ''.'' \<in> set (basename path) \<longrightarrow>
            local_filename env now url = Inr (basename path)
            \<and> (download_file d env now url w = Returns (Some filepath, w') \<longrightarrow>
                 filepath = path_join (raw_dir d) (basename path)
                 \<and> (\<exists>k data. fetch env k url = Response 200 (Inr data)
                       \<and> map_of (raw_files w') (basename path) = Some data)))"
proof -
  have stored: "filepath = path_join (raw_dir d) filename
      \<and> (\<exists>k data. fetch env k url = Response 200 (Inr data)
            \<and> map_of (raw_files w') filename = Some data)"
    if "local_filename env now url = Inr filename"
      and "download_file d env now url w = Returns (Some filepath, w')" for filename
  proof -
    from download_file_result [OF that(2)] that(1)
    have "download_attempts d env url filename [1..<retry_attempts d + 1] w =
        (Some filepath, w')"
      by simp
    from download_attempts_result [OF this] show ?thesis
      by (auto simp: map_of_write_file)
  qed
  have synthesized: "local_filename env now url = Inr (''download_'' @ str_nat now @ ''.csv'')"
    if "basename path = [] \<or> CHR ''.'' \<notin> set (basename path)"
    using assms that by (auto simp: local_filename_def Let_def)
  have kept: "local_filename env now url = Inr (basename path)"
    if "CHR ''.'' \<in> set (basename path)"
    using assms that by (auto simp: local_filename_def Let_def)
  have suffix: "endswith (''download_'' @ str_nat now @ ''.csv'') ''.csv''"
    by (simp add: endswith_def)
  show ?thesis
    using stored [OF synthesized] stored [OF kept] synthesized kept suffix by blast
qed

theorem synthesized_filename_witness:
  "urlparse_path (bracketed_host july_env) ''http://x/download'' = Inr ''/download''
   \<and> urlparse_path (bracketed_host july_env) ''http://x/'' = Inr ''/''
   \<and> urlparse_path (bracketed_host july_env) ''http://x/report.'' = Inr ''/report.''
   \<and> local_filename july_env 1700000000 ''http://x/download'' = Inr ''download_1700000000.csv''
   \<and> local_filename july_env 1700000000 ''http://x/'' = Inr ''download_1700000000.csv''
   \<and> local_filename july_env 1700000000 ''http://x/report.'' = Inr ''report.''
   \<and> endswith ''download_1700000000.csv'' ''.csv''
   \<and> download_file july july_env 1700000000 ''http://x/download'' (world_of []) =
       Returns
         (Some ''output/dtb.July_20250101_000000/raw_downloads/download_1700000000.csv'',
          (world_of [(''download_1700000000.csv'', ''http://x/download'')])
            \<lparr>downloads_log :=
               [''DOWNLOAD: http://x/download -> download_1700000000.csv - SUCCESS''],
             attempts := [''http://x/download'']\<rparr>)"
proof -
  have paths: "urlparse_path (bracketed_host july_env) ''http://x/download'' = Inr ''/download''"
    "urlparse_path (bracketed_host july_env) ''http://x/'' = Inr ''/''"
    "urlparse_path (bracketed_host july_env) ''http://x/report.'' = Inr ''/report.''"
    by (simp_all add: july_env_def no_bracket_check paths_of_samples)
  have no_dot: "basename ''/download'' = [] \<or> CHR ''.'' \<notin> set (basename ''/download'')"
    and no_name: "basename ''/'' = [] \<or> CHR ''.'' \<notin> set (basename ''/'')"
    and dot: "CHR ''.'' \<in> set (basename ''/report.'')"
    and base: "basename ''/report.'' = ''report.''"
    by (simp_all add: basename_def)
  note a = synthesized_filename [where now = 1700000000, OF paths(1), THEN conjunct1, rule_format,
      OF no_dot]
  note b = synthesized_filename [where now = 1700000000, OF paths(2), THEN conjunct1, rule_format,
      OF no_name]
  note c = synthesized_filename [where now = 1700000000, OF paths(3), THEN conjunct2, rule_format,
      OF dot]
  have name: "local_filename july_env 1700000000 ''http://x/download'' =
      Inr ''download_1700000000.csv''"
    using a by (simp add: str_nat_sample)
  have run: "download_file july july_env 1700000000 ''http://x/download'' (world_of []) =
       Returns
         (Some ''output/dtb.July_20250101_000000/raw_downloads/download_1700000000.csv'',
          (world_of [(''download_1700000000.csv'', ''http://x/download'')])
            \<lparr>downloads_log :=
               [''DOWNLOAD: http://x/download -> download_1700000000.csv - SUCCESS''],
             attempts := [''http://x/download'']\<rparr>)"
    unfolding three_attempts [OF retry_july(1) name]
    by (simp add: july_env_def raw_path_july sample_env_fields mirror_outcome success_line_def
        write_raw_def log_download_def world_of_def)
  show ?thesis
    using a b c paths run by (simp add: str_nat_sample base)
qed

text \<open>
  The base name \<^verbatim>\<open>.hidden\<close> has no extension (\<^verbatim>\<open>os.path.splitext\<close> gives none), and the
  download is stored under that name, which does not end in \<^verbatim>\<open>.csv\<close>.
\<close>

theorem hidden_file_counterexample:
  "urlparse_path (bracketed_host july_env) ''http://x/.hidden'' = Inr ''/.hidden''
   \<and> basename ''/.hidden'' = ''.hidden''
   \<and> extension ''.hidden'' = []
   \<and> local_filename july_env 1700000000 ''http://x/.hidden'' = Inr ''.hidden''
   \<and> \<not> endswith ''.hidden'' ''.csv''
   \<and> download_file july july_env 1700000000 ''http://x/.hidden'' (world_of []) =
       Returns
         (Some ''output/dtb.July_20250101_000000/raw_downloads/.hidden'',
          (world_of [(''.hidden'', ''http://x/.hidden'')])
            \<lparr>downloads_log := [''DOWNLOAD: http://x/.hidden -> .hidden - SUCCESS''],
             attempts := [''http://x/.hidden'']\<rparr>)"
proof -
  have name: "local_filename july_env 1700000000 ''http://x/.hidden'' = Inr ''.hidden''"
    by (simp add: july_env_def local_filename_samples)
  have run: "download_file july july_env 1700000000 ''http://x/.hidden'' (world_of []) =
       Returns
         (Some ''output/dtb.July_20250101_000000/raw_downloads/.hidden'',
          (world_of [(''.hidden'', ''http://x/.hidden'')])
            \<lparr>downloads_log := [''DOWNLOAD: http://x/.hidden -> .hidden - SUCCESS''],
             attempts := [''http://x/.hidden'']\<rparr>)"
    unfolding three_attempts [OF retry_july(1) name]
    by (simp add: july_env_def raw_path_july sample_env_fields mirror_outcome success_line_def
        write_raw_def log_download_def world_of_def)
  have "extension ''.hidden'' = []"
    by (simp add: extension_def)
  with name run show ?thesis
    by (simp add: july_env_def no_bracket_check paths_of_samples basename_def endswith_def)
qed

text \<open>
  Claim C9. A call of \<^verbatim>\<open>download_file\<close> that returns \<^verbatim>\<open>None\<close> leaves the raw directory
  as it was. The raw directory changes only by storing, under the local file name, the
  payload read from a response with status 200, after the local file was opened; the
  combined file is never touched.
\<close>

theorem failed_download_writes_nothing:
  assumes "download_file d env now url w = Returns (result, w')"
  shows "(result = None \<longrightarrow> raw_files w' = raw_files w)
       \<and> (raw_files w' \<noteq> raw_files w \<longrightarrow>
            (\<exists>k data filename. fetch env k url = Response 200 (Inr data)
               \<and> local_filename env now url = Inr filename
               \<and> open_for_writing env (path_join (raw_dir d) filename) = None
               \<and> raw_files w' = write_file filename data (raw_files w)))
       \<and> combined w' = combined w"
proof -
  from download_file_result [OF assms] obtain filename
    where name: "local_filename env now url = Inr filename"
      and run: "download_attempts d env url filename [1..<retry_attempts d + 1] w = (result, w')"
    by blast
  from download_attempts_result [OF run] name show ?thesis
    by auto
qed

theorem failed_download_writes_nothing_witness:
  "download_file july (sample_env july dead_net) 1700000000 ''http://x/a.csv''
       (world_of [(''a.csv'', plain_bytes)]) =
     Returns
       (None,
        (world_of [(''a.csv'', plain_bytes)])
          \<lparr>downloads_log := [''DOWNLOAD: http://x/a.csv -> a.csv - FAILED (HTTP 404)''],
           attempts := [''http://x/a.csv'', ''http://x/a.csv'', ''http://x/a.csv''],
           sleeps := [2, 2]\<rparr>)
   \<and> raw_files
       ((world_of [(''a.csv'', plain_bytes)])
          \<lparr>downloads_log := [''DOWNLOAD: http://x/a.csv -> a.csv - FAILED (HTTP 404)''],
           attempts := [''http://x/a.csv'', ''http://x/a.csv'', ''http://x/a.csv''],
           sleeps := [2, 2]\<rparr>) = raw_files (world_of [(''a.csv'', plain_bytes)])"
proof -
  have run: "download_file july (sample_env july dead_net) 1700000000 ''http://x/a.csv''
       (world_of [(''a.csv'', plain_bytes)]) =
     Returns
       (None,
        (world_of [(''a.csv'', plain_bytes)])
          \<lparr>downloads_log := [''DOWNLOAD: http://x/a.csv -> a.csv - FAILED (HTTP 404)''],
           attempts := [''http://x/a.csv'', ''http://x/a.csv'', ''http://x/a.csv''],
           sleeps := [2, 2]\<rparr>)"
    unfolding three_attempts [OF retry_july(1) local_filename_samples(1)]
    by (simp add: sample_env_fields dead_outcome retry_july failed_line_def log_download_def
        world_of_def)
  from failed_download_writes_nothing [OF run] run show ?thesis
    by simp
qed

text \<open>
  Claim C10. Two links whose paths have the same base name, with a dot in it, get that
  base name as their local file name, whatever the time, and so the same local path. When
  both downloads succeed, the second leaves the names of the raw directory as they are
  and replaces the bytes under that name by its own payload; names that were distinct
  before the two calls are distinct after them.
\<close>

theorem same_basename_overwrites:
  assumes "urlparse_path (bracketed_host env) u1 = Inr path1"
    and "urlparse_path (bracketed_host env) u2 = Inr path2"
    and "basename path1 = basename path2"
    and "CHR ''.'' \<in> set (basename path1)"
    and "download_file d env t1 u1 w = Returns (Some p1, w1)"
    and "download_file d env t2 u2 w1 = Returns (Some p2, w2)"
  shows "local_filename env t1 u1 = Inr (basename path1)
       \<and> local_filename env t2 u2 = Inr (basename path1)
       \<and> p1 = p2
       \<and> map fst (raw_files w2) = map fst (raw_files w1)
       \<and> (\<exists>k data. fetch env k u2 = Response 200 (Inr data)
             \<and> map_of (raw_files w2) (basename path1) = Some data)
       \<and> (distinct (map fst (raw_files w)) \<longrightarrow> distinct (map fst (raw_files w2)))"
proof -
  let ?name = "basename path1"
  have n1: "local_filename env t1 u1 = Inr ?name" and n2: "local_filename env t2 u2 = Inr ?name"
    using assms(1-4) by (auto simp: local_filename_def Let_def)
  from download_file_result [OF assms(5)] n1
  have "download_attempts d env u1 ?name [1..<retry_attempts d + 1] w = (Some p1, w1)"
    by simp
  from download_attempts_result [OF this]
  obtain k1 data1 where 1: "p1 = path_join (raw_dir d) ?name"
    "raw_files w1 = write_file ?name data1 (raw_files w)"
    by auto
  from download_file_result [OF assms(6)] n2
  have "download_attempts d env u2 ?name [1..<retry_attempts d + 1] w1 = (Some p2, w2)"
    by simp
  from download_attempts_result [OF this]
  obtain k2 data2 where 2: "p2 = path_join (raw_dir d) ?name"
    "fetch env k2 u2 = Response 200 (Inr data2)"
    "raw_files w2 = write_file ?name data2 (raw_files w1)"
    by auto
  have present: "?name \<in> fst ` set (raw_files w1)"
    unfolding 1(2) using map_of_write_file [of ?name data1 "raw_files w"]
    by (metis domI dom_map_of_conv_image_fst)
  have "map fst (raw_files w2) = map fst (raw_files w1)"
    unfolding 2(3) using present by (simp add: names_write_file)
  moreover have "map_of (raw_files w2) ?name = Some data2"
    unfolding 2(3) by (rule map_of_write_file)
  moreover have "distinct (map fst (raw_files w2))" if "distinct (map fst (raw_files w))"
    unfolding 2(3) 1(2) using that by (intro distinct_write_file)
  ultimately show ?thesis
    using n1 n2 1(1) 2(1,2) by blast
qed

theorem same_basename_overwrites_witness:
  "urlparse_path (bracketed_host july_env) ''http://x/a.csv'' = Inr ''/a.csv''
   \<and> urlparse_path (bracketed_host july_env) ''http://y/reports/a.csv'' = Inr ''/reports/a.csv''
   \<and> basename ''/a.csv'' = basename ''/reports/a.csv''
   \<and> CHR ''.'' \<in> set (basename ''/a.csv'')
   \<and> download_file july july_env 1700000000 ''http://x/a.csv'' (world_of []) =
       Returns
         (Some ''output/dtb.July_20250101_000000/raw_downloads/a.csv'',
          (world_of [(''a.csv'', ''http://x/a.csv'')])
            \<lparr>downloads_log := [''DOWNLOAD: http://x/a.csv -> a.csv - SUCCESS''],
             attempts := [''http://x/a.csv'']\<rparr>)
   \<and> download_file july july_env 1700000009 ''http://y/reports/a.csv''
         ((world_of [(''a.csv'', ''http://x/a.csv'')])
          \<lparr>downloads_log := [''DOWNLOAD: http://x/a.csv -> a.csv - SUCCESS''],
           attempts := [''http://x/a.csv'']\<rparr>) =
       Returns
         (Some ''output/dtb.July_20250101_000000/raw_downloads/a.csv'',
          (world_of [(''a.csv'', ''http://y/reports/a.csv'')])
            \<lparr>downloads_log := [''DOWNLOAD: http://x/a.csv -> a.csv - SUCCESS'',
               ''DOWNLOAD: http://y/reports/a.csv -> a.csv - SUCCESS''],
             attempts := [''http://x/a.csv'', ''http://y/reports/a.csv'']\<rparr>)"
proof -
  let ?u1 = "''http://x/a.csv''" and ?u2 = "''http://y/reports/a.csv''"
  let ?w1 = "(world_of [(''a.csv'', ?u1)])
          \<lparr>downloads_log := [''DOWNLOAD: http://x/a.csv -> a.csv - SUCCESS''],
           attempts := [?u1]\<rparr>"
  let ?w2 = "(world_of [(''a.csv'', ?u2)])
          \<lparr>downloads_log := [''DOWNLOAD: http://x/a.csv -> a.csv - SUCCESS'',
             ''DOWNLOAD: http://y/reports/a.csv -> a.csv - SUCCESS''],
           attempts := [?u1, ?u2]\<rparr>"
  let ?p = "''output/dtb.July_20250101_000000/raw_downloads/a.csv''"
  have paths: "urlparse_path (bracketed_host july_env) ?u1 = Inr ''/a.csv''"
    "urlparse_path (bracketed_host july_env) ?u2 = Inr ''/reports/a.csv''"
    by (simp_all add: july_env_def no_bracket_check paths_of_samples)
  have same: "basename ''/a.csv'' = basename ''/reports/a.csv''"
    and dot: "CHR ''.'' \<in> set (basename ''/a.csv'')"
    by (simp_all add: basename_def)
  have names: "local_filename july_env 1700000000 ?u1 = Inr ''a.csv''"
    "local_filename july_env 1700000009 ?u2 = Inr ''a.csv''"
    by (simp_all add: july_env_def local_filename_samples)
  have run1: "download_file july july_env 1700000000 ?u1 (world_of []) = Returns (Some ?p, ?w1)"
    unfolding three_attempts [OF retry_july(1) names(1)]
    by (simp add: july_env_def raw_path_july sample_env_fields mirror_outcome success_line_def
        write_raw_def log_download_def world_of_def)
  have run2: "download_file july july_env 1700000009 ?u2 ?w1 = Returns (Some ?p, ?w2)"
    unfolding three_attempts [OF retry_july(1) names(2)]
    by (simp add: july_env_def raw_path_july sample_env_fields mirror_outcome success_line_def
        write_raw_def log_download_def world_of_def)
  from same_basename_overwrites [OF paths same dot run1 run2] paths same dot run1 run2
  show ?thesis
    by simp
qed

section \<open>The links the extractor returns\<close>

lemma sample_links:
  "findall (anchor ''http://x/a.csv?dl=1'' @ anchor ''http://x/c.txt?f=.csv'') =
     [''http://x/a.csv?dl=1'', ''http://x/c.txt?f=.csv'']"
  "findall (anchor ''http://x/c.txt'') = [''http://x/c.txt'']"
  "findall two_href_tag = [''http://x/b.csv'']"
  by code_simp+

lemma html_body_message: "html_body (html_message body) = body"
  by (cases body) (simp_all add: html_body_def html_message_def)

lemma csv_suffix_samples:
  "endswith (lower ''http://x/a.csv'') ''.csv''"
  "endswith (lower ''http://x/b.CSV'') ''.csv''"
  "endswith (lower ''http://x/b.csv'') ''.csv''"
  "\<not> endswith (lower ''http://x/c.txt'') ''.csv''"
  "\<not> endswith (lower ''http://x/a.csv?dl=1'') ''.csv''"
  "endswith (lower ''http://x/c.txt?f=.csv'') ''.csv''"
  by (simp_all add: endswith_def lower_def lower_char_def)























section \<open>A run without links\<close>

lemma extract_csv_urls_logs_only:
  assumes "extract_csv_urls d src w = (urls, w')"
  shows "raw_files w' = raw_files w \<and> combined w' = combined w \<and> console w' = console w
       \<and> attempts w' = attempts w \<and> sleeps w' = sleeps w"
  using assms
  by (cases src) (auto simp: extract_csv_urls_def log_download_def log_agg_def Let_def)

lemma extract_csv_urls_same_links:
  "fst (extract_csv_urls d src w) = fst (extract_csv_urls d src w')"
  by (cases src) (simp_all add: extract_csv_urls_def Let_def)

text \<open>
  Claim C7, as the code has it. When the extractor yields no link, \<^verbatim>\<open>run\<close> returns after
  the extraction: no attempt to download is made and nothing sleeps, the raw directory
  and the combined file are as they were, and the console gets the two opening lines and
  the line that no \<^verbatim>\<open>.csv\<close> URLs were found, and nothing else: no number of downloads
  is printed.
\<close>

theorem run_without_links:
  assumes "fst (extract_csv_urls d src w) = []"
  shows "\<exists>w'. run d src env w = Returns w'
       \<and> raw_files w' = raw_files w
       \<and> combined w' = combined w
       \<and> attempts w' = attempts w
       \<and> sleeps w' = sleeps w
       \<and> console w' =
           console w @ [''Parsing email: '' @ eml_path d, ''Output folder: '' @ output_dir d,
                        '' No .csv URLs found in email.'']"
proof -
  let ?w0 = "print (''Output folder: '' @ output_dir d) (print (''Parsing email: '' @ eml_path d) w)"
  obtain urls w1 where ex: "extract_csv_urls d src ?w0 = (urls, w1)"
    by (cases "extract_csv_urls d src ?w0")
  have "urls = []"
    using assms extract_csv_urls_same_links [of d src ?w0 w] ex by simp
  with ex have run: "run d src env w = Returns (print '' No .csv URLs found in email.'' w1)"
    by (simp add: run_def)
  from extract_csv_urls_logs_only [OF ex] show ?thesis
    unfolding run by (simp add: print_def)
qed

theorem run_without_links_witness:
  "fst (extract_csv_urls july (Parsed (html_message (anchor ''http://x/c.txt''))) (world_of [])) = []
   \<and> run july (Parsed (html_message (anchor ''http://x/c.txt''))) july_env (world_of []) =
       Returns
         ((world_of [])
            \<lparr>aggregation_log := [''Found 0 .csv URLs in email.''],
             console :=
               [''Parsing email: tickets.eml'',
                ''Output folder: output/dtb.July_20250101_000000'',
                '' No .csv URLs found in email.'']\<rparr>)"
proof -
  let ?src = "Parsed (html_message (anchor ''http://x/c.txt''))"
  have none: "fst (extract_csv_urls july ?src (world_of [])) = []"
    by (simp add: extract_csv_urls_def html_body_message sample_links csv_suffix_samples)
  have run: "run july ?src july_env (world_of []) =
       Returns
         ((world_of [])
            \<lparr>aggregation_log := [''Found 0 .csv URLs in email.''],
             console :=
               [''Parsing email: tickets.eml'',
                ''Output folder: output/dtb.July_20250101_000000'',
                '' No .csv URLs found in email.'']\<rparr>)"
    by (simp add: run_def extract_csv_urls_def html_body_message sample_links
        csv_suffix_samples july_paths print_def log_agg_def world_of_def str_nat.simps
        digit_char_def)
  from run_without_links [OF none, of july_env] none run show ?thesis
    by simp
qed

text \<open>
  The run without links prints three lines, and none of them gives a number of
  downloads: the line \<^verbatim>\<open>Downloaded 0 out of 0 files.\<close> is not printed.
\<close>

theorem no_download_count_counterexample:
  "run july (Parsed (html_message (anchor ''http://x/c.txt''))) july_env (world_of []) =
     Returns
       ((world_of [])
          \<lparr>aggregation_log := [''Found 0 .csv URLs in email.''],
           console :=
             [''Parsing email: tickets.eml'',
              ''Output folder: output/dtb.July_20250101_000000'',
              '' No .csv URLs found in email.'']\<rparr>)
   \<and> \<not> contains ''Downloaded'' ''Parsing email: tickets.eml''
   \<and> \<not> contains ''Downloaded'' ''Output folder: output/dtb.July_20250101_000000''
   \<and> \<not> contains ''Downloaded'' '' No .csv URLs found in email.''"
proof -
  have "\<not> contains ''Downloaded'' ''Parsing email: tickets.eml''"
    "\<not> contains ''Downloaded'' ''Output folder: output/dtb.July_20250101_000000''"
    "\<not> contains ''Downloaded'' '' No .csv URLs found in email.''"
    by code_simp+
  then show ?thesis
    by (simp add: run_def extract_csv_urls_def html_body_message sample_links
        csv_suffix_samples july_paths print_def log_agg_def world_of_def str_nat.simps
        digit_char_def)
qed

end
